theory Spec2Isabelle
  imports Complex_Main "HOL-Library.Log_Nat"
begin

section \<open>The GPR-20 axis driver\<close>

text \<open>
  A shallow embedding of \<^verbatim>\<open>src/gpr20_axis/axis_driver.py\<close>. A Python float is an IEEE
  binary64 value: the arithmetic of the source is modelled with its rounding, its
  infinities and its NaN. An exception is a value: every operation returns the exception
  it raised, if any, together with the object as the raise left it. A call of the linear
  homing loop that never returns has the value \<open>None\<close>.
\<close>

subsection \<open>Python floats\<close>

text \<open>
  A float is a finite value, an infinity or NaN. The finite values of the program are the
  binary64 numbers; the operations below are defined on every real and return binary64
  numbers. The two zeros of binary64 are not told apart: the source never observes the
  sign of a zero (a division by either zero raises, and both compare equal).
\<close>

datatype pyfloat = Fin real | PInf | NInf | NaN

text \<open>Rounding to the nearest integer, a tie going to the even one.\<close>

definition round_half_even :: "real \<Rightarrow> int" where
  "round_half_even y =
    (let f = \<lfloor>y\<rfloor>; d = y - of_int f
     in if d < 1 / 2 then f else if 1 / 2 < d then f + 1 else if even f then f else f + 1)"

text \<open>The binary exponent \<open>e\<close> of a nonzero real: \<open>2\<^sup>e \<le> \<bar>x\<bar> < 2\<^sup>e\<^sup>+\<^sup>1\<close>.\<close>

definition float_exponent :: "real \<Rightarrow> int" where
  "float_exponent x =
    (if 1 \<le> \<bar>x\<bar> then bitlen \<lfloor>\<bar>x\<bar>\<rfloor> - 1 else - bitlen (\<lceil>1 / \<bar>x\<bar>\<rceil> - 1))"

text \<open>
  Rounding a real to binary64, to nearest with ties to even: 53 significant bits, the
  least exponent of a unit in the last place \<open>-1074\<close> (subnormal numbers), and an
  infinity when the rounded value reaches \<open>2\<^sup>1\<^sup>0\<^sup>2\<^sup>4\<close>.
\<close>

definition round_double :: "real \<Rightarrow> pyfloat" where
  "round_double x =
    (if x = 0 then Fin 0
     else
       let q = max (float_exponent x - 52) (- 1074);
           r = of_int (round_half_even (x / 2 powi q)) * 2 powi q
       in if 2 ^ 1024 \<le> r then PInf else if r \<le> - (2 ^ 1024) then NInf else Fin r)"

text \<open>Negation, \<^verbatim>\<open>abs\<close>, \<^verbatim>\<open>+\<close>, \<^verbatim>\<open>-\<close> and \<^verbatim>\<open>*\<close> on floats.\<close>

fun fneg :: "pyfloat \<Rightarrow> pyfloat" where
  "fneg (Fin a) = Fin (- a)"
| "fneg PInf = NInf"
| "fneg NInf = PInf"
| "fneg NaN = NaN"

fun fabs :: "pyfloat \<Rightarrow> pyfloat" where
  "fabs (Fin a) = Fin \<bar>a\<bar>"
| "fabs PInf = PInf"
| "fabs NInf = PInf"
| "fabs NaN = NaN"

fun fadd :: "pyfloat \<Rightarrow> pyfloat \<Rightarrow> pyfloat" where
  "fadd (Fin a) (Fin b) = round_double (a + b)"
| "fadd NaN y = NaN"
| "fadd x NaN = NaN"
| "fadd PInf NInf = NaN"
| "fadd NInf PInf = NaN"
| "fadd PInf y = PInf"
| "fadd x PInf = PInf"
| "fadd NInf y = NInf"
| "fadd x NInf = NInf"

definition fsub :: "pyfloat \<Rightarrow> pyfloat \<Rightarrow> pyfloat" where
  "fsub x y = fadd x (fneg y)"

fun fmul :: "pyfloat \<Rightarrow> pyfloat \<Rightarrow> pyfloat" where
  "fmul (Fin a) (Fin b) = round_double (a * b)"
| "fmul NaN y = NaN"
| "fmul x NaN = NaN"
| "fmul PInf (Fin b) = (if b = 0 then NaN else if 0 < b then PInf else NInf)"
| "fmul NInf (Fin b) = (if b = 0 then NaN else if 0 < b then NInf else PInf)"
| "fmul (Fin a) PInf = (if a = 0 then NaN else if 0 < a then PInf else NInf)"
| "fmul (Fin a) NInf = (if a = 0 then NaN else if 0 < a then NInf else PInf)"
| "fmul PInf PInf = PInf"
| "fmul NInf NInf = PInf"
| "fmul PInf NInf = NInf"
| "fmul NInf PInf = NInf"

text \<open>
  An \<^verbatim>\<open>int\<close> operand of a float operation is converted to a float first, rounded
  like every other value. (Python raises instead of returning an infinity; that needs an
  \<^verbatim>\<open>int\<close> of at least \<open>2\<^sup>1\<^sup>0\<^sup>2\<^sup>4 - 2\<^sup>9\<^sup>7\<^sup>0\<close>, above every index of a plan of a constructed object,
  whose \<^verbatim>\<open>step_intervals\<close> is the \<^verbatim>\<open>int\<close> of a finite float, plus one.)
\<close>

definition float_of_int :: "int \<Rightarrow> pyfloat" where
  "float_of_int i = round_double (of_int i)"

subsection \<open>Exceptions\<close>

datatype py_exception =
    AxisException string
  | IndexError
  | ZeroDivisionError
  | ValueError
  | OverflowError
  | AttributeError

text \<open>
  \<^verbatim>\<open>/\<close> on floats: a zero divisor raises \<^verbatim>\<open>ZeroDivisionError\<close>, whatever the dividend;
  otherwise the quotient is the IEEE one.
\<close>

fun ieee_div :: "pyfloat \<Rightarrow> pyfloat \<Rightarrow> pyfloat" where
  "ieee_div (Fin a) (Fin b) = round_double (a / b)"
| "ieee_div NaN y = NaN"
| "ieee_div x NaN = NaN"
| "ieee_div (Fin a) y = Fin 0"
| "ieee_div PInf (Fin b) = (if 0 < b then PInf else NInf)"
| "ieee_div NInf (Fin b) = (if 0 < b then NInf else PInf)"
| "ieee_div x y = NaN"

definition fdiv :: "pyfloat \<Rightarrow> pyfloat \<Rightarrow> py_exception + pyfloat" where
  "fdiv x y = (if y = Fin 0 then Inl ZeroDivisionError else Inr (ieee_div x y))"

text \<open>\<^verbatim>\<open><\<close>, \<^verbatim>\<open>>\<close> and \<^verbatim>\<open><=\<close> on floats: every comparison with NaN is false.\<close>

fun flt :: "pyfloat \<Rightarrow> pyfloat \<Rightarrow> bool" where
  "flt (Fin a) (Fin b) \<longleftrightarrow> a < b"
| "flt NaN y \<longleftrightarrow> False"
| "flt x NaN \<longleftrightarrow> False"
| "flt x NInf \<longleftrightarrow> False"
| "flt PInf y \<longleftrightarrow> False"
| "flt x y \<longleftrightarrow> True"

definition fgt :: "pyfloat \<Rightarrow> pyfloat \<Rightarrow> bool" where
  "fgt x y \<longleftrightarrow> flt y x"

fun fle :: "pyfloat \<Rightarrow> pyfloat \<Rightarrow> bool" where
  "fle (Fin a) (Fin b) \<longleftrightarrow> a \<le> b"
| "fle NaN y \<longleftrightarrow> False"
| "fle x NaN \<longleftrightarrow> False"
| "fle NInf y \<longleftrightarrow> True"
| "fle x PInf \<longleftrightarrow> True"
| "fle x y \<longleftrightarrow> False"

text \<open>\<^verbatim>\<open>==\<close> between an \<^verbatim>\<open>int\<close> and a float compares the exact values.\<close>

fun int_eq_float :: "int \<Rightarrow> pyfloat \<Rightarrow> bool" where
  "int_eq_float k (Fin a) \<longleftrightarrow> of_int k = a"
| "int_eq_float k y \<longleftrightarrow> False"

text \<open>
  \<^verbatim>\<open>int(x)\<close> on a float truncates towards zero; it raises \<^verbatim>\<open>ValueError\<close> on NaN and
  \<^verbatim>\<open>OverflowError\<close> on an infinity.
\<close>

fun py_int :: "pyfloat \<Rightarrow> py_exception + int" where
  "py_int (Fin a) = Inr (if 0 \<le> a then \<lfloor>a\<rfloor> else \<lceil>a\<rceil>)"
| "py_int NaN = Inl ValueError"
| "py_int PInf = Inl OverflowError"
| "py_int NInf = Inl OverflowError"

definition pins_step_dir_error :: py_exception where
  "pins_step_dir_error = AxisException ''Pins number for step and direction must be different''"

definition pins_dir_sensor_error :: py_exception where
  "pins_dir_sensor_error = AxisException ''Direction pin number is equal to sensor pin.''"

definition pins_step_sensor_error :: py_exception where
  "pins_step_sensor_error = AxisException ''Step pin number is equal to sensor pin.''"

definition max_steps_error :: py_exception where
  "max_steps_error = AxisException ''Maximum steps for axis have been achieved''"

definition busy_error :: py_exception where
  "busy_error = AxisException ''Axis is busy!''"

definition not_homed_error :: py_exception where
  "not_homed_error = AxisException ''Homing has not been performed!''"

definition above_max_error :: py_exception where
  "above_max_error = AxisException ''Target coordinate is above maximum coordinate for axis!''"

definition below_min_error :: py_exception where
  "below_min_error = AxisException ''Targte coordinate is below minimum coordinate for axis!''"

subsection \<open>The driver object\<close>

text \<open>
  The attributes of \<^verbatim>\<open>AxisDriver\<close>. \<open>stepper_log\<close> stands for the stepper interface:
  it lists the calls \<^verbatim>\<open>step(direction, pause_val)\<close> made so far, oldest first.
  \<open>endstop_interface\<close> holds the sensor pin of the endstop interface; it is \<open>None\<close>
  both when the attribute is Python's \<^verbatim>\<open>None\<close> (a rotational axis) and when it was never
  set (an axis type that is neither \<^verbatim>\<open>'LIN'\<close> nor \<^verbatim>\<open>'ROT'\<close>): calling
  \<^verbatim>\<open>sample()\<close> on it raises \<^verbatim>\<open>AttributeError\<close> in either case.
\<close>

record axis =
  dir_pin :: int
  step_pin :: int
  sensor_pin :: "int option"
  endstop_interface :: "int option"
  step_size :: pyfloat
  min_step :: pyfloat
  max_step :: pyfloat
  delta_step :: pyfloat
  step_intervals :: int
  min_coord :: pyfloat
  max_coord :: pyfloat
  axis_type :: string
  current_coord :: pyfloat
  homing_done :: bool
  busy :: bool
  stepper_log :: "(bool \<times> pyfloat) list"

text \<open>
  \<^verbatim>\<open>StepperInterface.step(direction, pause_val)\<close>: one pulse, recorded in the log. The
  GPIO library and \<^verbatim>\<open>time.sleep\<close> are outside this development: a step is taken to
  return, as it does on the hardware for a pause that is not negative.
\<close>

definition stepper_step :: "bool \<Rightarrow> pyfloat \<Rightarrow> axis \<Rightarrow> axis" where
  "stepper_step direction pause_val s = s\<lparr>stepper_log := stepper_log s @ [(direction, pause_val)]\<rparr>"

subsection \<open>Construction\<close>

text \<open>
  \<^verbatim>\<open>AxisDriver.__init__(pin_values, step_values, coord_values, axis_type)\<close>, in the
  order of the source: an index beyond a list raises \<^verbatim>\<open>IndexError\<close>, and the derivation
  of \<^verbatim>\<open>step_intervals\<close>, \<^verbatim>\<open>int(step_time_delta / self._delta_step) + 1\<close>, raises what
  the division or \<^verbatim>\<open>int\<close> raises.
\<close>

definition axis_init :: "int list \<Rightarrow> pyfloat list \<Rightarrow> pyfloat list \<Rightarrow> string \<Rightarrow> py_exception + axis" where
  "axis_init pin_values step_values coord_values a_type =
    (if length pin_values < 2 then Inl IndexError
     else if pin_values ! 1 = pin_values ! 0 then Inl pins_step_dir_error
     else if length step_values < 4 then Inl IndexError
     else
       case fdiv (fsub (step_values ! 2) (step_values ! 1)) (step_values ! 3) of
         Inl e \<Rightarrow> Inl e
       | Inr ratio \<Rightarrow>
          (case py_int ratio of
             Inl e \<Rightarrow> Inl e
           | Inr k \<Rightarrow>
              if length coord_values < 2 then Inl IndexError
              else
                let s = \<lparr> dir_pin = pin_values ! 0,
                          step_pin = pin_values ! 1,
                          sensor_pin = None,
                          endstop_interface = None,
                          step_size = step_values ! 0,
                          min_step = step_values ! 1,
                          max_step = step_values ! 2,
                          delta_step = step_values ! 3,
                          step_intervals = k + 1,
                          min_coord = coord_values ! 0,
                          max_coord = coord_values ! 1,
                          axis_type = a_type,
                          current_coord = Fin (- 1),
                          homing_done = False,
                          busy = False,
                          stepper_log = [] \<rparr>
                in
                  if a_type = ''LIN'' then
                    (if length pin_values < 3 then Inl IndexError
                     else if dir_pin s = pin_values ! 2 then Inl pins_dir_sensor_error
                     else if step_pin s = pin_values ! 2 then Inl pins_step_sensor_error
                     else Inr (s\<lparr>sensor_pin := Some (pin_values ! 2),
                                 endstop_interface := Some (pin_values ! 2)\<rparr>))
                  else Inr s))"

subsection \<open>The step plan\<close>

text \<open>
  \<^verbatim>\<open>_create_steps_list(n_steps)\<close>; \<^verbatim>\<open>range(k)\<close> is empty for \<open>k \<le> 0\<close>. The pauses are
  \<^verbatim>\<open>self._max_step - i * self._delta_step\<close> and \<^verbatim>\<open>self._min_step + i * self._delta_step\<close>
  in float arithmetic.
\<close>

definition accel_leg :: "axis \<Rightarrow> pyfloat list" where
  "accel_leg s =
     map (\<lambda>i. fsub (max_step s) (fmul (float_of_int (int i)) (delta_step s)))
       [0..<nat (step_intervals s)]"

definition decel_leg :: "axis \<Rightarrow> pyfloat list" where
  "decel_leg s =
     map (\<lambda>i. fadd (min_step s) (fmul (float_of_int (int i)) (delta_step s)))
       [0..<nat (step_intervals s)]"

definition create_steps_list :: "axis \<Rightarrow> int \<Rightarrow> pyfloat list" where
  "create_steps_list s n_steps =
    (if n_steps < 2 * step_intervals s \<and> n_steps > 0 then
       replicate (nat n_steps) (max_step s)
     else if n_steps = 2 * step_intervals s then
       accel_leg s @ decel_leg s
     else if n_steps > 2 * step_intervals s then
       (let const_steps = n_steps - 2 * step_intervals s
        in accel_leg s @ replicate (nat const_steps) (min_step s) @ decel_leg s)
     else [])"

subsection \<open>Homing\<close>

text \<open>
  The loop of the linear homing sequence. \<open>sensor k\<close> is what the \<open>k\<close>-th call of
  \<^verbatim>\<open>sample()\<close> of this homing run returns (counting from 0). \<open>max_steps\<close> is the
  quotient as the source computes it, a float that is compared with the integer counter.
  The result is the exception raised in the loop, if any, and the object.
\<close>

partial_function (option) homing_loop ::
  "(nat \<Rightarrow> bool) \<Rightarrow> pyfloat \<Rightarrow> axis \<Rightarrow> nat \<Rightarrow> (py_exception option \<times> axis) option" where
  "homing_loop sensor max_steps s executed_steps =
    (let s1 = stepper_step False (max_step s) s;
         executed = executed_steps + 1
     in if endstop_interface s1 = None then Some (Some AttributeError, s1)
        else if int_eq_float (int executed) max_steps then Some (Some max_steps_error, s1)
        else if sensor executed_steps then Some (None, s1)
        else homing_loop sensor max_steps s1 executed)"

declare homing_loop.simps [code]

text \<open>\<^verbatim>\<open>homing()\<close>.\<close>

definition homing :: "(nat \<Rightarrow> bool) \<Rightarrow> axis \<Rightarrow> (py_exception option \<times> axis) option" where
  "homing sensor s =
    (if axis_type s = ''ROT'' then
       Some (None, s\<lparr>current_coord := min_coord s, homing_done := True\<rparr>)
     else
       case fdiv (fsub (max_coord s) (min_coord s)) (step_size s) of
         Inl e \<Rightarrow> Some (Some e, s)
       | Inr max_steps \<Rightarrow>
          (case homing_loop sensor max_steps s 0 of
             None \<Rightarrow> None
           | Some (Some e, s') \<Rightarrow> Some (Some e, s')
           | Some (None, s') \<Rightarrow>
               Some (None, s'\<lparr>current_coord := min_coord s', homing_done := True\<rparr>)))"

subsection \<open>Moving\<close>

definition check_availability :: "axis \<Rightarrow> py_exception option \<times> axis" where
  "check_availability s = (if busy s then (Some busy_error, s) else (None, s))"

definition check_homing :: "axis \<Rightarrow> py_exception option \<times> axis" where
  "check_homing s =
    (if \<not> homing_done s then (Some not_homed_error, s\<lparr>busy := False\<rparr>) else (None, s))"

definition check_valid_target :: "axis \<Rightarrow> pyfloat \<Rightarrow> py_exception option \<times> axis" where
  "check_valid_target s target_coord =
    (if fgt target_coord (max_coord s) then (Some above_max_error, s\<lparr>busy := False\<rparr>)
     else if flt target_coord (min_coord s) then (Some below_min_error, s\<lparr>busy := False\<rparr>)
     else (None, s))"

definition calculate_delta_distance :: "axis \<Rightarrow> pyfloat \<Rightarrow> pyfloat" where
  "calculate_delta_distance s target_coord = fsub (current_coord s) target_coord"

definition calculate_direction :: "pyfloat \<Rightarrow> bool" where
  "calculate_direction distance_delta = (if flt distance_delta (Fin 0) then True else False)"

definition calculate_steps :: "axis \<Rightarrow> pyfloat \<Rightarrow> py_exception + int" where
  "calculate_steps s distance_delta =
    (case fdiv (fabs distance_delta) (step_size s) of
       Inl e \<Rightarrow> Inl e
     | Inr ratio \<Rightarrow> py_int ratio)"

text \<open>The body of the \<^verbatim>\<open>for\<close> loop of \<^verbatim>\<open>move_to_coordinate\<close>: one pulse, then one update.\<close>

definition move_pulse :: "bool \<Rightarrow> pyfloat \<Rightarrow> axis \<Rightarrow> axis" where
  "move_pulse move_direction pause_val s =
    (let s1 = stepper_step move_direction pause_val s
     in if move_direction then s1\<lparr>current_coord := fadd (current_coord s1) (step_size s1)\<rparr>
        else s1\<lparr>current_coord := fsub (current_coord s1) (step_size s1)\<rparr>)"

fun move_loop :: "bool \<Rightarrow> pyfloat list \<Rightarrow> axis \<Rightarrow> axis" where
  "move_loop move_direction [] s = s"
| "move_loop move_direction (pause_val # steps_list) s =
     move_loop move_direction steps_list (move_pulse move_direction pause_val s)"

text \<open>
  \<^verbatim>\<open>move_to_coordinate(target_coord)\<close>. An exception of \<^verbatim>\<open>_calculate_steps\<close> leaves the
  object as it is at that point, with \<^verbatim>\<open>busy\<close> set.
\<close>

definition move_to_coordinate :: "axis \<Rightarrow> pyfloat \<Rightarrow> py_exception option \<times> axis" where
  "move_to_coordinate s target_coord =
    (case check_availability s of
       (Some e, s0) \<Rightarrow> (Some e, s0)
     | (None, s0) \<Rightarrow>
        (case check_homing (s0\<lparr>busy := True\<rparr>) of
           (Some e, s1) \<Rightarrow> (Some e, s1)
         | (None, s1) \<Rightarrow>
            (case check_valid_target s1 target_coord of
               (Some e, s2) \<Rightarrow> (Some e, s2)
             | (None, s2) \<Rightarrow>
                (let distance_delta = calculate_delta_distance s2 target_coord;
                     move_direction = calculate_direction distance_delta
                 in case calculate_steps s2 distance_delta of
                      Inl e \<Rightarrow> (Some e, s2)
                    | Inr n_steps \<Rightarrow>
                       (let steps_list = create_steps_list s2 n_steps
                        in (None, (move_loop move_direction steps_list s2)\<lparr>busy := False\<rparr>))))))"

subsection \<open>Notions used to state the properties\<close>

text \<open>
  The three messages of \<^verbatim>\<open>AxisException\<close> that the constructor raises on a pin collision.
\<close>

definition configuration_error :: "py_exception \<Rightarrow> bool" where
  "configuration_error e \<longleftrightarrow>
     e = pins_step_dir_error \<or> e = pins_dir_sensor_error \<or> e = pins_step_sensor_error"

text \<open>
  The homing loop in closed form. \<open>homing_stop sensor m s j\<close>: the iteration that takes
  sample \<open>j\<close> leaves the loop, because there is no endstop interface, because the counter
  \<open>j + 1\<close> equals the float \<open>m\<close>, or because the sensor is triggered. \<open>homing_exit\<close> is the
  exception with which that iteration leaves, \<open>homing_pulses s n\<close> the object after \<open>n\<close>
  homing pulses.
\<close>

definition homing_stop :: "(nat \<Rightarrow> bool) \<Rightarrow> pyfloat \<Rightarrow> axis \<Rightarrow> nat \<Rightarrow> bool" where
  "homing_stop sensor m s j \<longleftrightarrow>
     endstop_interface s = None \<or> int_eq_float (int (j + 1)) m \<or> sensor j"

definition homing_exit :: "pyfloat \<Rightarrow> axis \<Rightarrow> nat \<Rightarrow> py_exception option" where
  "homing_exit m s j =
     (if endstop_interface s = None then Some AttributeError
      else if int_eq_float (int (j + 1)) m then Some max_steps_error else None)"

definition homing_pulses :: "axis \<Rightarrow> nat \<Rightarrow> axis" where
  "homing_pulses s n = s\<lparr>stepper_log := stepper_log s @ replicate n (False, max_step s)\<rparr>"

text \<open>
  Concrete objects. \<open>lin_axis\<close> is what
  \<^verbatim>\<open>AxisDriver([1, 2, 3], [1.0, 1.0, 3.0, 1.0], [0.0, 20.0], 'LIN')\<close> constructs and
  \<open>homed_axis\<close> the same object after a homing run whose first sample is triggered.
  \<open>short_axis\<close> has step size \<^verbatim>\<open>2.0\<close> and the range \<^verbatim>\<open>[0.0, 5.0]\<close>, a travel of two and
  a half steps. \<open>fine_axis\<close> has the step timing \<^verbatim>\<open>[0.002, 0.009, 0.001]\<close>, written with
  the binary64 numbers that these literals denote.
\<close>

definition lin_axis :: axis where
  "lin_axis = \<lparr> dir_pin = 1, step_pin = 2, sensor_pin = Some 3, endstop_interface = Some 3,
      step_size = Fin 1, min_step = Fin 1, max_step = Fin 3, delta_step = Fin 1,
      step_intervals = 3, min_coord = Fin 0, max_coord = Fin 20, axis_type = ''LIN'',
      current_coord = Fin (- 1), homing_done = False, busy = False, stepper_log = [] \<rparr>"

definition homed_axis :: axis where
  "homed_axis =
     lin_axis\<lparr>current_coord := Fin 0, homing_done := True, stepper_log := [(False, Fin 3)]\<rparr>"

definition short_axis :: axis where
  "short_axis = \<lparr> dir_pin = 1, step_pin = 2, sensor_pin = Some 3, endstop_interface = Some 3,
      step_size = Fin 2, min_step = Fin 1, max_step = Fin 3, delta_step = Fin 1,
      step_intervals = 3, min_coord = Fin 0, max_coord = Fin 5, axis_type = ''LIN'',
      current_coord = Fin (- 1), homing_done = False, busy = False, stepper_log = [] \<rparr>"


text \<open>
  The binary64 numbers that the literals \<^verbatim>\<open>1.3\<close>, \<^verbatim>\<open>2.3\<close>, \<^verbatim>\<open>3.3\<close>, \<^verbatim>\<open>2.6\<close> and
  \<^verbatim>\<open>3.9\<close> denote, the binary64 number next above \<^verbatim>\<open>3.9\<close> (printed
  \<^verbatim>\<open>3.9000000000000004\<close>) and the one next below \<^verbatim>\<open>2.0\<close> (printed
  \<^verbatim>\<open>1.9999999999999998\<close>).
\<close>

definition dbl_1_3 :: real where "dbl_1_3 = 5854679515581645 / 2 ^ 52"
definition dbl_2_3 :: real where "dbl_2_3 = 2589569785738035 / 2 ^ 50"
definition dbl_3_3 :: real where "dbl_3_3 = 3715469692580659 / 2 ^ 50"
definition dbl_2_6 :: real where "dbl_2_6 = 5854679515581645 / 2 ^ 51"
definition dbl_3_9 :: real where "dbl_3_9 = 8782019273372467 / 2 ^ 51"
definition dbl_3_9_next :: real where "dbl_3_9_next = 8782019273372468 / 2 ^ 51"
definition dbl_2_prev :: real where "dbl_2_prev = 9007199254740991 / 2 ^ 52"

text \<open>
  \<open>offset_axis\<close> is what
  \<^verbatim>\<open>AxisDriver([1, 2, 3], [1.0, 1.0, 3.0, 1.0], [1.3, 3.3], 'LIN')\<close> constructs, \<open>wide_axis\<close>
  what \<^verbatim>\<open>AxisDriver([1, 2, 3], [1.3, 1.0, 3.0, 1.0], [0.0, 3.9], 'LIN')\<close> constructs;
  \<open>offset_homed\<close> and \<open>wide_homed\<close> are these objects after a homing run whose first
  sample is triggered.
\<close>

definition offset_axis :: axis where
  "offset_axis = \<lparr> dir_pin = 1, step_pin = 2, sensor_pin = Some 3, endstop_interface = Some 3,
      step_size = Fin 1, min_step = Fin 1, max_step = Fin 3, delta_step = Fin 1,
      step_intervals = 3, min_coord = Fin dbl_1_3, max_coord = Fin dbl_3_3,
      axis_type = ''LIN'', current_coord = Fin (- 1), homing_done = False, busy = False,
      stepper_log = [] \<rparr>"

definition offset_homed :: axis where
  "offset_homed =
     offset_axis\<lparr>current_coord := Fin dbl_1_3, homing_done := True,
       stepper_log := [(False, Fin 3)]\<rparr>"

definition wide_axis :: axis where
  "wide_axis = \<lparr> dir_pin = 1, step_pin = 2, sensor_pin = Some 3, endstop_interface = Some 3,
      step_size = Fin dbl_1_3, min_step = Fin 1, max_step = Fin 3, delta_step = Fin 1,
      step_intervals = 3, min_coord = Fin 0, max_coord = Fin dbl_3_9,
      axis_type = ''LIN'', current_coord = Fin (- 1), homing_done = False, busy = False,
      stepper_log = [] \<rparr>"

definition wide_homed :: axis where
  "wide_homed =
     wide_axis\<lparr>current_coord := Fin 0, homing_done := True, stepper_log := [(False, Fin 3)]\<rparr>"

section \<open>Properties\<close>

subsection \<open>Rounding to binary64\<close>

text \<open>
  The exponent that \<open>float_exponent\<close> computes is the one between whose powers of two
  the number lies; this evaluates \<open>round_double\<close> at a given number.
\<close>

lemma float_exponent_eq:
  assumes "2 powi e \<le> \<bar>x\<bar>" and "\<bar>x\<bar> < 2 powi (e + 1)"
  shows "float_exponent x = e"
proof (cases "0 \<le> e")
  case True
  define k where "k = nat e"
  have e: "e = int k" using True by (simp add: k_def)
  have lo: "2 ^ k \<le> \<bar>x\<bar>" and hi: "\<bar>x\<bar> < 2 ^ (k + 1)"
    using assms by (simp_all add: e power_int_add)
  have "(1::real) \<le> 2 ^ k" by simp
  with lo have one: "1 \<le> \<bar>x\<bar>" by linarith
  define m where "m = \<lfloor>\<bar>x\<bar>\<rfloor>"
  have "real_of_int (2 ^ k) \<le> \<bar>x\<bar>" using lo by simp
  then have mlo: "2 ^ k \<le> m" unfolding m_def by (subst le_floor_iff) simp
  have "\<bar>x\<bar> < real_of_int (2 ^ (k + 1))" using hi by simp
  then have mhi: "m < 2 ^ (k + 1)" unfolding m_def by (subst floor_less_iff) simp
  have "bitlen m = int k + 1"
  proof -
    have "bitlen m \<le> int (k + 1)"
      unfolding bitlen_le_iff_power nat_int using mhi by simp
    moreover have "int (k + 1) \<le> bitlen m"
      unfolding bitlen_ge_iff_power using mlo by (simp add: nat_add_distrib)
    ultimately show ?thesis by simp
  qed
  with one show ?thesis by (simp add: float_exponent_def m_def e)
next
  case False
  define k where "k = nat (- e)"
  have e: "e = - int k" and k: "1 \<le> k" using False by (simp_all add: k_def)
  have x0: "0 < \<bar>x\<bar>" using assms(1) by (smt (verit) zero_less_power_int)
  have hi: "\<bar>x\<bar> < 2 powi (- int (k - 1))"
    using assms(2) k by (simp add: e of_nat_diff)
  have "(2::real) powi (- int (k - 1)) \<le> 1"
    by (simp add: power_int_minus field_simps)
  with hi have lt1: "\<not> 1 \<le> \<bar>x\<bar>" by linarith
  define c where "c = \<lceil>1 / \<bar>x\<bar>\<rceil>"
  have "1 / \<bar>x\<bar> \<le> 2 ^ k"
    using assms(1) x0 by (simp add: e power_int_minus field_simps)
  then have "1 / \<bar>x\<bar> \<le> real_of_int (2 ^ k)" by simp
  then have chi: "c \<le> 2 ^ k" unfolding c_def by (subst ceiling_le_iff) simp
  have "2 ^ (k - 1) < 1 / \<bar>x\<bar>"
    using hi x0 by (simp add: power_int_minus field_simps)
  then have "real_of_int (2 ^ (k - 1)) < 1 / \<bar>x\<bar>" by simp
  then have clo: "2 ^ (k - 1) < c" unfolding c_def by (subst less_ceiling_iff) simp
  have "bitlen (c - 1) = int k"
  proof -
    have "c - 1 < 2 ^ k" using chi by simp
    then have "bitlen (c - 1) \<le> int k"
      unfolding bitlen_le_iff_power nat_int by simp
    moreover have "2 ^ (k - 1) \<le> c - 1" using clo by simp
    then have "int (k - 1) + 1 \<le> bitlen (c - 1)"
      unfolding bitlen_ge_iff_power by (simp add: nat_add_distrib)
    ultimately show ?thesis using k by simp
  qed
  with lt1 show ?thesis by (simp add: float_exponent_def c_def e)
qed

lemma round_double_eval:
  assumes "2 powi e \<le> \<bar>x\<bar>" and "\<bar>x\<bar> < 2 powi (e + 1)"
  shows "round_double x =
    (let q = max (e - 52) (- 1074);
         r = of_int (round_half_even (x / 2 powi q)) * 2 powi q
     in if 2 ^ 1024 \<le> r then PInf else if r \<le> - (2 ^ 1024) then NInf else Fin r)"
proof -
  have "x \<noteq> 0" using assms(1) by (smt (verit) zero_less_power_int)
  then show ?thesis
    by (simp add: round_double_def float_exponent_eq [OF assms])
qed

lemma round_half_even_of_int [simp]: "round_half_even (of_int n) = n"
  by (simp add: round_half_even_def)

text \<open>
  Integers below \<open>2\<^sup>5\<^sup>3\<close> in absolute value are binary64 numbers.
\<close>

lemma round_double_of_int:
  assumes "\<bar>m\<bar> < 2 ^ 53"
  shows "round_double (of_int m) = Fin (of_int m)"
proof (cases "m = 0")
  case True
  then show ?thesis by (simp add: round_double_def)
next
  case False
  define k where "k = nat (bitlen \<bar>m\<bar> - 1)"
  from False have pos: "0 < \<bar>m\<bar>" by simp
  from bitlen_bounds [OF pos] have b: "2 ^ k \<le> \<bar>m\<bar>" "\<bar>m\<bar> < 2 ^ nat (bitlen \<bar>m\<bar>)"
    by (simp_all add: k_def)
  from pos have "1 \<le> bitlen \<bar>m\<bar>" by (simp add: bitlen_alt_def)
  then have nb: "nat (bitlen \<bar>m\<bar>) = k + 1" by (simp add: k_def)
  have "(2::int) ^ k \<le> \<bar>m\<bar>" by (rule b(1))
  also have "\<dots> < 2 ^ 53" by (rule assms)
  finally have "(2::int) ^ k < 2 ^ 53" .
  then have "k < 53" by (rule power_less_imp_less_exp [rotated]) simp
  then have k52: "k \<le> 52" by simp
  have lo: "2 powi (int k) \<le> \<bar>real_of_int m\<bar>"
  proof -
    have "real_of_int (2 ^ k) \<le> real_of_int \<bar>m\<bar>" using b(1) by (simp only: of_int_le_iff)
    then show ?thesis by simp
  qed
  have hi: "\<bar>real_of_int m\<bar> < 2 powi (int k + 1)"
  proof -
    have "real_of_int \<bar>m\<bar> < real_of_int (2 ^ (k + 1))"
      using b(2) unfolding nb by (simp only: of_int_less_iff)
    then show ?thesis by (simp add: power_int_add)
  qed
  define j where "j = 52 - k"
  have q: "max (int k - 52) (- 1074) = - int j" using k52 by (simp add: j_def)
  have scaled: "real_of_int m / 2 powi (- int j) = real_of_int (m * 2 ^ j)"
    by (simp add: power_int_minus field_simps)
  have unscaled: "real_of_int (m * 2 ^ j) * 2 powi (- int j) = real_of_int m"
    by (simp add: power_int_minus field_simps)
  have "\<bar>real_of_int m\<bar> < 2 ^ 53" using assms
    by (metis of_int_abs of_int_less_iff of_int_numeral of_int_power)
  then have small: "\<not> 2 ^ 1024 \<le> real_of_int m" "\<not> real_of_int m \<le> - (2 ^ 1024)"
    by (auto simp: abs_less_iff)
  show ?thesis
    unfolding round_double_eval [OF lo hi] q Let_def scaled round_half_even_of_int unscaled
    using small by simp
qed

lemma round_double_numeral [simp]:
  "numeral w < (2::int) ^ 53 \<Longrightarrow> round_double (numeral w) = Fin (numeral w)"
  "numeral w < (2::int) ^ 53 \<Longrightarrow> round_double (- numeral w) = Fin (- numeral w)"
  "round_double 1 = Fin 1" "round_double 0 = Fin 0"
  using round_double_of_int [of "numeral w"] round_double_of_int [of "- numeral w"]
    round_double_of_int [of 1] round_double_of_int [of 0]
  by simp_all

lemma round_double_half [simp]: "round_double (5 / 2) = Fin (5 / 2)"
  by (subst round_double_eval [of 1]) (simp_all add: round_half_even_def Let_def power_int_minus)



lemmas dbl_defs = dbl_1_3_def dbl_2_3_def dbl_3_3_def dbl_2_6_def dbl_3_9_def dbl_3_9_next_def
  dbl_2_prev_def

text \<open>
  The binary64 numbers that the Python literals denote, and the arithmetic on them that
  the runs below perform.
\<close>

lemma decimal_doubles:
  "round_double (13 / 10) = Fin dbl_1_3" "round_double (23 / 10) = Fin dbl_2_3"
  "round_double (33 / 10) = Fin dbl_3_3" "round_double (39 / 10) = Fin dbl_3_9"
proof -
  show "round_double (13 / 10) = Fin dbl_1_3"
    unfolding dbl_defs
    by (subst round_double_eval [of 0]) (simp_all add: round_half_even_def Let_def power_int_minus)
  show "round_double (23 / 10) = Fin dbl_2_3"
    unfolding dbl_defs
    by (subst round_double_eval [of 1]) (simp_all add: round_half_even_def Let_def power_int_minus)
  show "round_double (33 / 10) = Fin dbl_3_3"
    unfolding dbl_defs
    by (subst round_double_eval [of 1]) (simp_all add: round_half_even_def Let_def power_int_minus)
  show "round_double (39 / 10) = Fin dbl_3_9"
    unfolding dbl_defs
    by (subst round_double_eval [of 1]) (simp_all add: round_half_even_def Let_def power_int_minus)
qed

lemma dbl_nonzero [simp]: "Fin dbl_1_3 \<noteq> Fin 0" "Fin 1 \<noteq> Fin 0"
  by (simp_all add: dbl_defs)

lemma dbl_signs:
  "\<bar>- dbl_2_prev\<bar> = dbl_2_prev" "0 \<le> dbl_2_prev" "\<lfloor>dbl_2_prev\<rfloor> = 1" "- dbl_2_prev < 0"
  "1 \<noteq> dbl_2_prev" "\<bar>- dbl_3_9\<bar> = dbl_3_9" "- dbl_3_9 < 0" "\<not> dbl_3_3 < dbl_1_3"
  "\<not> dbl_3_9 < 0" "dbl_3_9 < dbl_3_9_next" "0 \<le> dbl_3_9" "\<bar>dbl_2_3 - dbl_3_3\<bar> = 1"
  "dbl_1_3 \<noteq> 0" "0 < dbl_2_prev" "0 < dbl_3_9" "dbl_2_prev \<noteq> 1"
  by (simp_all add: dbl_defs)

lemma offset_arith:
  "fsub (Fin dbl_3_3) (Fin dbl_1_3) = Fin dbl_2_prev"
  "fsub (Fin dbl_1_3) (Fin dbl_3_3) = Fin (- dbl_2_prev)"
  "ieee_div (Fin dbl_2_prev) (Fin 1) = Fin dbl_2_prev"
  "fadd (Fin dbl_1_3) (Fin 1) = Fin dbl_2_3"
  "fadd (Fin dbl_2_3) (Fin 1) = Fin dbl_3_3"
  "fsub (Fin dbl_2_3) (Fin dbl_3_3) = Fin (- 1)"
proof -
  show "fsub (Fin dbl_3_3) (Fin dbl_1_3) = Fin dbl_2_prev"
    unfolding dbl_defs fsub_def fneg.simps fadd.simps
    by (subst round_double_eval [of 0]) (simp_all add: round_half_even_def Let_def power_int_minus)
  show "fsub (Fin dbl_1_3) (Fin dbl_3_3) = Fin (- dbl_2_prev)"
    unfolding dbl_defs fsub_def fneg.simps fadd.simps
    by (subst round_double_eval [of 0]) (simp_all add: round_half_even_def Let_def power_int_minus)
  show "ieee_div (Fin dbl_2_prev) (Fin 1) = Fin dbl_2_prev"
    unfolding dbl_defs ieee_div.simps
    by (subst round_double_eval [of 0]) (simp_all add: round_half_even_def Let_def power_int_minus)
  show "fadd (Fin dbl_1_3) (Fin 1) = Fin dbl_2_3"
    unfolding dbl_defs fadd.simps
    by (subst round_double_eval [of 1]) (simp_all add: round_half_even_def Let_def power_int_minus)
  show "fadd (Fin dbl_2_3) (Fin 1) = Fin dbl_3_3"
    unfolding dbl_defs fadd.simps
    by (subst round_double_eval [of 1]) (simp_all add: round_half_even_def Let_def power_int_minus)
  show "fsub (Fin dbl_2_3) (Fin dbl_3_3) = Fin (- 1)"
    unfolding dbl_defs fsub_def fneg.simps fadd.simps
    by (subst round_double_eval [of 0]) (simp_all add: round_half_even_def Let_def power_int_minus)
qed

lemma wide_arith:
  "fsub (Fin dbl_3_9) (Fin 0) = Fin dbl_3_9"
  "fsub (Fin 0) (Fin dbl_3_9) = Fin (- dbl_3_9)"
  "ieee_div (Fin dbl_3_9) (Fin dbl_1_3) = Fin 3"
  "fadd (Fin 0) (Fin dbl_1_3) = Fin dbl_1_3"
  "fadd (Fin dbl_1_3) (Fin dbl_1_3) = Fin dbl_2_6"
  "fadd (Fin dbl_2_6) (Fin dbl_1_3) = Fin dbl_3_9_next"
proof -
  show "fsub (Fin dbl_3_9) (Fin 0) = Fin dbl_3_9"
    unfolding dbl_defs fsub_def fneg.simps fadd.simps
    by (subst round_double_eval [of 1]) (simp_all add: round_half_even_def Let_def power_int_minus)
  show "fsub (Fin 0) (Fin dbl_3_9) = Fin (- dbl_3_9)"
    unfolding dbl_defs fsub_def fneg.simps fadd.simps
    by (subst round_double_eval [of 1]) (simp_all add: round_half_even_def Let_def power_int_minus)
  show "ieee_div (Fin dbl_3_9) (Fin dbl_1_3) = Fin 3"
    unfolding dbl_defs ieee_div.simps
    by (subst round_double_eval [of 1]) (simp_all add: round_half_even_def Let_def power_int_minus)
  show "fadd (Fin 0) (Fin dbl_1_3) = Fin dbl_1_3"
    unfolding dbl_defs fadd.simps
    by (subst round_double_eval [of 0]) (simp_all add: round_half_even_def Let_def power_int_minus)
  show "fadd (Fin dbl_1_3) (Fin dbl_1_3) = Fin dbl_2_6"
    unfolding dbl_defs fadd.simps
    by (subst round_double_eval [of 1]) (simp_all add: round_half_even_def Let_def power_int_minus)
  show "fadd (Fin dbl_2_6) (Fin dbl_1_3) = Fin dbl_3_9_next"
    unfolding dbl_defs fadd.simps
    by (subst round_double_eval [of 1]) (simp_all add: round_half_even_def Let_def power_int_minus)
qed


subsection \<open>Concrete objects\<close>

lemma lin_axis_init:
  "axis_init [1, 2, 3] [Fin 1, Fin 1, Fin 3, Fin 1] [Fin 0, Fin 20] ''LIN'' = Inr lin_axis"
  by (simp add: axis_init_def lin_axis_def fdiv_def fsub_def)

lemma lin_axis_fields:
  "step_intervals lin_axis = 3" "min_step lin_axis = Fin 1" "max_step lin_axis = Fin 3"
  "delta_step lin_axis = Fin 1" "step_size lin_axis = Fin 1" "min_coord lin_axis = Fin 0"
  "max_coord lin_axis = Fin 20" "axis_type lin_axis = ''LIN''"
  "current_coord lin_axis = Fin (- 1)"
  "\<not> homing_done lin_axis" "\<not> busy lin_axis" "stepper_log lin_axis = []"
  "endstop_interface lin_axis = Some 3"
  by (simp_all add: lin_axis_def)

lemma homed_axis_fields:
  "step_intervals homed_axis = 3" "min_step homed_axis = Fin 1" "max_step homed_axis = Fin 3"
  "delta_step homed_axis = Fin 1" "step_size homed_axis = Fin 1" "min_coord homed_axis = Fin 0"
  "max_coord homed_axis = Fin 20" "axis_type homed_axis = ''LIN''"
  "current_coord homed_axis = Fin 0"
  "homing_done homed_axis" "\<not> busy homed_axis" "stepper_log homed_axis = [(False, Fin 3)]"
  "endstop_interface homed_axis = Some 3"
  by (simp_all add: homed_axis_def lin_axis_def)

lemma short_axis_init:
  "axis_init [1, 2, 3] [Fin 2, Fin 1, Fin 3, Fin 1] [Fin 0, Fin 5] ''LIN'' = Inr short_axis"
  by (simp add: axis_init_def short_axis_def fdiv_def fsub_def)


lemma offset_axis_init:
  "axis_init [1, 2, 3] [Fin 1, Fin 1, Fin 3, Fin 1] [Fin dbl_1_3, Fin dbl_3_3] ''LIN''
     = Inr offset_axis"
  by (simp add: axis_init_def offset_axis_def fdiv_def fsub_def)

lemma wide_axis_init:
  "axis_init [1, 2, 3] [Fin dbl_1_3, Fin 1, Fin 3, Fin 1] [Fin 0, Fin dbl_3_9] ''LIN''
     = Inr wide_axis"
  by (simp add: axis_init_def wide_axis_def fdiv_def fsub_def)

lemma offset_axis_fields:
  "axis_type offset_axis = ''LIN''" "endstop_interface offset_axis = Some 3"
  "max_step offset_axis = Fin 3" "min_coord offset_axis = Fin dbl_1_3"
  "axis_type wide_axis = ''LIN''" "endstop_interface wide_axis = Some 3"
  "max_step wide_axis = Fin 3" "min_coord wide_axis = Fin 0"
  by (simp_all add: offset_axis_def wide_axis_def)

subsection \<open>Construction\<close>

lemma axis_init_fresh:
  assumes "axis_init pin_values step_values coord_values ty = Inr s"
  shows "\<not> busy s" "\<not> homing_done s" "current_coord s = Fin (- 1)" "stepper_log s = []"
  using assms by (auto simp: axis_init_def Let_def split: if_splits sum.splits)



text \<open>
  C8. Construction raises the step/direction pin exception whenever the direction pin
  equals the step pin. When the derivation of \<^verbatim>\<open>step_intervals\<close> raises nothing (a nonzero
  \<^verbatim>\<open>delta_step\<close> and a quotient that \<^verbatim>\<open>int\<close> accepts), construction of a linear axis
  raises one of the three pin exceptions whenever the sensor pin equals one of the other
  two pins, and construction with three distinct pins succeeds, whatever the axis type.
\<close>

theorem axis_init_pin_checks:
  "(d = st \<longrightarrow> axis_init [d, st, se] [sz, mn, mx, dl] [lo, hi] ty = Inl pins_step_dir_error)
   \<and> (ty = ''LIN'' \<and> dl \<noteq> Fin 0 \<and> py_int (ieee_div (fsub mx mn) dl) = Inr k
        \<and> (se = d \<or> se = st) \<longrightarrow>
        (\<exists>e. axis_init [d, st, se] [sz, mn, mx, dl] [lo, hi] ty = Inl e \<and> configuration_error e))
   \<and> (d \<noteq> st \<and> se \<noteq> d \<and> se \<noteq> st \<and> dl \<noteq> Fin 0
        \<and> py_int (ieee_div (fsub mx mn) dl) = Inr k \<longrightarrow>
        (\<exists>s. axis_init [d, st, se] [sz, mn, mx, dl] [lo, hi] ty = Inr s))
   \<and> configuration_error pins_step_dir_error"
  by (auto simp: axis_init_def configuration_error_def fdiv_def Let_def)

theorem axis_init_pin_checks_witness:
  "axis_init [1, 1, 3] [Fin 1, Fin 1, Fin 3, Fin 1] [Fin 0, Fin 20] ''LIN'' = Inl pins_step_dir_error
   \<and> Fin 1 \<noteq> Fin 0 \<and> py_int (ieee_div (fsub (Fin 3) (Fin 1)) (Fin 1)) = Inr 2
   \<and> axis_init [1, 2, 1] [Fin 1, Fin 1, Fin 3, Fin 1] [Fin 0, Fin 20] ''LIN''
       = Inl pins_dir_sensor_error
   \<and> axis_init [1, 2, 2] [Fin 1, Fin 1, Fin 3, Fin 1] [Fin 0, Fin 20] ''LIN''
       = Inl pins_step_sensor_error
   \<and> configuration_error pins_dir_sensor_error \<and> configuration_error pins_step_sensor_error
   \<and> axis_init [1, 2, 3] [Fin 1, Fin 1, Fin 3, Fin 1] [Fin 0, Fin 20] ''LIN'' = Inr lin_axis"
  using axis_init_pin_checks [of 1 1 3 "Fin 1" "Fin 1" "Fin 3" "Fin 1" "Fin 0" "Fin 20" "''LIN''" 2]
    axis_init_pin_checks [of 1 2 1 "Fin 1" "Fin 1" "Fin 3" "Fin 1" "Fin 0" "Fin 20" "''LIN''" 2]
    axis_init_pin_checks [of 1 2 2 "Fin 1" "Fin 1" "Fin 3" "Fin 1" "Fin 0" "Fin 20" "''LIN''" 2]
    axis_init_pin_checks [of 1 2 3 "Fin 1" "Fin 1" "Fin 3" "Fin 1" "Fin 0" "Fin 20" "''LIN''" 2]
  by (simp add: lin_axis_init configuration_error_def fsub_def)
     (simp add: axis_init_def fdiv_def fsub_def)

subsection \<open>The step plan\<close>

lemma length_create_steps_list:
  "0 \<le> step_intervals s \<Longrightarrow> 0 \<le> n \<Longrightarrow> length (create_steps_list s n) = nat n"
  by (auto simp: create_steps_list_def accel_leg_def decel_leg_def Let_def)



subsection \<open>The homing loop\<close>

lemma stepper_step_fields [simp]:
  "endstop_interface (stepper_step d p s) = endstop_interface s"
  "max_step (stepper_step d p s) = max_step s"
  "min_coord (stepper_step d p s) = min_coord s"
  "max_coord (stepper_step d p s) = max_coord s"
  "busy (stepper_step d p s) = busy s"
  "homing_done (stepper_step d p s) = homing_done s"
  "current_coord (stepper_step d p s) = current_coord s"
  "step_size (stepper_step d p s) = step_size s"
  "stepper_log (stepper_step d p s) = stepper_log s @ [(d, p)]"
  by (simp_all add: stepper_step_def)

lemma homing_pulses_fields [simp]:
  "endstop_interface (homing_pulses s n) = endstop_interface s"
  "max_step (homing_pulses s n) = max_step s"
  "min_coord (homing_pulses s n) = min_coord s"
  "max_coord (homing_pulses s n) = max_coord s"
  "step_size (homing_pulses s n) = step_size s"
  "busy (homing_pulses s n) = busy s"
  "homing_done (homing_pulses s n) = homing_done s"
  "current_coord (homing_pulses s n) = current_coord s"
  "stepper_log (homing_pulses s n) = stepper_log s @ replicate n (False, max_step s)"
  by (simp_all add: homing_pulses_def)

lemma homing_pulses_step:
  "homing_pulses (stepper_step False (max_step s) s) n = homing_pulses s (Suc n)"
  by (simp add: homing_pulses_def stepper_step_def replicate_app_Cons_same)

lemma homing_pulses_one: "stepper_step False (max_step s) s = homing_pulses s (Suc 0)"
  by (simp add: homing_pulses_def stepper_step_def)

text \<open>
  If the loop returns, it returns at the first iteration that leaves it.
\<close>

lemma homing_loop_result:
  assumes "homing_loop sensor m s k = Some y"
  shows "\<exists>j\<ge>k. (\<forall>i. k \<le> i \<and> i < j \<longrightarrow> \<not> homing_stop sensor m s i) \<and> homing_stop sensor m s j
           \<and> y = (homing_exit m s j, homing_pulses s (j + 1 - k))"
proof (rule homing_loop.raw_induct [where P = "\<lambda>sensor m s k y.
    \<exists>j\<ge>k. (\<forall>i. k \<le> i \<and> i < j \<longrightarrow> \<not> homing_stop sensor m s i) \<and> homing_stop sensor m s j
           \<and> y = (homing_exit m s j, homing_pulses s (j + 1 - k))", OF _ assms], goal_cases)
  case (1 loop sensor m s k y)
  let ?s1 = "stepper_step False (max_step s) s"
  show ?case
  proof (cases "homing_stop sensor m s k")
    case True
    with 1(2) have "y = (homing_exit m s k, homing_pulses s (k + 1 - k))"
      by (auto simp: homing_stop_def homing_exit_def Let_def homing_pulses_one split: if_splits)
    with True show ?thesis by (intro exI [of _ k]) auto
  next
    case False
    with 1(2) have "loop sensor m ?s1 (k + 1) = Some y"
      by (auto simp: homing_stop_def Let_def split: if_splits)
    from 1(1) [OF this] obtain j where j: "k + 1 \<le> j"
      "\<forall>i. k + 1 \<le> i \<and> i < j \<longrightarrow> \<not> homing_stop sensor m ?s1 i" "homing_stop sensor m ?s1 j"
      "y = (homing_exit m ?s1 j, homing_pulses ?s1 (j + 1 - (k + 1)))"
      by blast
    have "\<forall>i. k \<le> i \<and> i < j \<longrightarrow> \<not> homing_stop sensor m s i"
    proof (intro allI impI)
      fix i assume "k \<le> i \<and> i < j"
      then consider "i = k" | "k + 1 \<le> i \<and> i < j" by linarith
      then show "\<not> homing_stop sensor m s i"
        using False j(2) by cases (auto simp: homing_stop_def)
    qed
    moreover have "homing_stop sensor m s j" using j(3) by (simp add: homing_stop_def)
    moreover have "y = (homing_exit m s j, homing_pulses s (j + 1 - k))"
      using j(1,4) by (simp add: homing_exit_def homing_pulses_step Suc_diff_le)
    ultimately show ?thesis using j(1) by (intro exI [of _ j]) auto
  qed
qed

text \<open>
  The loop returns as soon as some iteration leaves it, and never otherwise.
\<close>

lemma homing_loop_stops:
  assumes "k \<le> j" and "homing_stop sensor m s j"
  shows "\<exists>y. homing_loop sensor m s k = Some y"
  using assms
proof (induction "j - k" arbitrary: k s)
  case 0
  then have "j = k" by simp
  with 0 show ?case
    by (subst homing_loop.simps) (auto simp: homing_stop_def Let_def)
next
  case (Suc d)
  let ?s1 = "stepper_step False (max_step s) s"
  from Suc(2) have "d = j - (k + 1)" "k + 1 \<le> j" by simp_all
  moreover from Suc(4) have "homing_stop sensor m ?s1 j" by (simp add: homing_stop_def)
  ultimately obtain y where "homing_loop sensor m ?s1 (k + 1) = Some y"
    using Suc(1) by blast
  then show ?case
    by (subst homing_loop.simps) (auto simp: Let_def)
qed

lemma homing_loop_diverges:
  assumes "\<forall>j\<ge>k. \<not> homing_stop sensor m s j"
  shows "homing_loop sensor m s k = None"
proof (cases "homing_loop sensor m s k")
  case None
  then show ?thesis .
next
  case (Some y)
  from homing_loop_result [OF this] assms show ?thesis by blast
qed

lemma homing_loop_first_stop:
  assumes "k \<le> j" and "\<forall>i. k \<le> i \<and> i < j \<longrightarrow> \<not> homing_stop sensor m s i"
    and "homing_stop sensor m s j"
  shows "homing_loop sensor m s k = Some (homing_exit m s j, homing_pulses s (j + 1 - k))"
proof -
  from homing_loop_stops [OF assms(1,3)] obtain y where y: "homing_loop sensor m s k = Some y"
    by blast
  from homing_loop_result [OF y] obtain j' where j': "k \<le> j'"
    "\<forall>i. k \<le> i \<and> i < j' \<longrightarrow> \<not> homing_stop sensor m s i" "homing_stop sensor m s j'"
    "y = (homing_exit m s j', homing_pulses s (j' + 1 - k))"
    by blast
  have "j' = j"
  proof (rule ccontr)
    assume "j' \<noteq> j"
    then consider "j' < j" | "j < j'" by linarith
    then show False using assms j'(1,2,3) by cases auto
  qed
  with y j'(4) show ?thesis by simp
qed

subsection \<open>Homing\<close>

lemma homing_rot:
  "axis_type s = ''ROT'' \<Longrightarrow>
     homing sensor s = Some (None, s\<lparr>current_coord := min_coord s, homing_done := True\<rparr>)"
  by (simp add: homing_def)

lemma homing_lin_first_stop:
  assumes "axis_type s \<noteq> ''ROT''"
    and "fdiv (fsub (max_coord s) (min_coord s)) (step_size s) = Inr m"
    and "\<forall>i<j. \<not> homing_stop sensor m s i"
    and "homing_stop sensor m s j"
  shows "homing sensor s =
    (case homing_exit m s j of
       Some e \<Rightarrow> Some (Some e, homing_pulses s (j + 1))
     | None \<Rightarrow> Some (None, (homing_pulses s (j + 1))\<lparr>current_coord := min_coord s, homing_done := True\<rparr>))"
proof -
  have "homing_loop sensor m s 0 = Some (homing_exit m s j, homing_pulses s (j + 1 - 0))"
    using assms(3,4) by (intro homing_loop_first_stop) simp_all
  with assms(1,2) show ?thesis
    by (simp add: homing_def split: option.splits)
qed

lemma lin_axis_travel:
  "fdiv (fsub (max_coord lin_axis) (min_coord lin_axis)) (step_size lin_axis) = Inr (Fin 20)"
  "fdiv (fsub (max_coord homed_axis) (min_coord homed_axis)) (step_size homed_axis) = Inr (Fin 20)"
  by (simp_all add: lin_axis_fields homed_axis_fields fdiv_def fsub_def)

lemma homing_lin_axis: "homing (\<lambda>k. True) lin_axis = Some (None, homed_axis)"
  using homing_lin_first_stop [OF _ lin_axis_travel(1), of 0 "\<lambda>k. True"]
  by (simp add: lin_axis_fields homing_stop_def homing_exit_def)
     (simp add: lin_axis_def homed_axis_def homing_pulses_def)

lemma offset_axis_homing: "homing (\<lambda>k. True) offset_axis = Some (None, offset_homed)"
proof -
  have "fdiv (fsub (max_coord offset_axis) (min_coord offset_axis)) (step_size offset_axis)
      = Inr (Fin dbl_2_prev)"
    by (simp add: offset_axis_def fdiv_def offset_arith del: ieee_div.simps(1) fadd.simps(1))
  from homing_lin_first_stop [OF _ this, of 0 "\<lambda>k. True"] show ?thesis
    by (simp add: homing_stop_def homing_exit_def dbl_signs offset_axis_fields)
       (simp add: offset_axis_def offset_homed_def homing_pulses_def)
qed

lemma wide_axis_homing: "homing (\<lambda>k. True) wide_axis = Some (None, wide_homed)"
proof -
  have "fdiv (fsub (max_coord wide_axis) (min_coord wide_axis)) (step_size wide_axis)
      = Inr (Fin 3)"
    by (simp add: wide_axis_def fdiv_def wide_arith dbl_signs del: ieee_div.simps(1) fadd.simps(1))
  from homing_lin_first_stop [OF _ this, of 0 "\<lambda>k. True"] show ?thesis
    by (simp add: homing_stop_def homing_exit_def offset_axis_fields)
       (simp add: wide_axis_def wide_homed_def homing_pulses_def)
qed

lemma homing_result_fields:
  assumes "homing sensor s = Some (r, s')"
  shows "busy s' = busy s" "step_size s' = step_size s" "min_coord s' = min_coord s"
    "max_coord s' = max_coord s"
    "r \<noteq> None \<Longrightarrow> current_coord s' = current_coord s \<and> homing_done s' = homing_done s"
    "r = None \<Longrightarrow> current_coord s' = min_coord s \<and> homing_done s'"
proof -
  have *: "busy s' = busy s \<and> step_size s' = step_size s \<and> min_coord s' = min_coord s
    \<and> max_coord s' = max_coord s
    \<and> (r \<noteq> None \<longrightarrow> current_coord s' = current_coord s \<and> homing_done s' = homing_done s)
    \<and> (r = None \<longrightarrow> current_coord s' = min_coord s \<and> homing_done s')"
  proof (cases "axis_type s = ''ROT''")
    case True
    with assms show ?thesis by (auto simp: homing_def)
  next
    case False
    show ?thesis
    proof (cases "fdiv (fsub (max_coord s) (min_coord s)) (step_size s)")
      case (Inl e)
      with assms False show ?thesis by (auto simp: homing_def)
    next
      case (Inr m)
      with assms False obtain r1 s1 where s1: "homing_loop sensor m s 0 = Some (r1, s1)"
        by (auto simp: homing_def split: option.splits)
      from homing_loop_result [OF s1] obtain j where "s1 = homing_pulses s (j + 1)" by auto
      with assms False Inr s1 show ?thesis
        by (cases r1) (auto simp: homing_def homing_pulses_def)
    qed
  qed
  from * show "busy s' = busy s" "step_size s' = step_size s" "min_coord s' = min_coord s"
    "max_coord s' = max_coord s"
    "r \<noteq> None \<Longrightarrow> current_coord s' = current_coord s \<and> homing_done s' = homing_done s"
    "r = None \<Longrightarrow> current_coord s' = min_coord s \<and> homing_done s'"
    by blast+
qed

text \<open>
  When the travel is a whole number \<open>n > 0\<close> of steps and the sensor is not triggered in
  the first \<open>n - 1\<close> samples, homing raises the maximum-steps exception after exactly \<open>n\<close>
  pulses.
\<close>

lemma homing_budget_exhausted:
  assumes "axis_type s \<noteq> ''ROT''" and "endstop_interface s \<noteq> None"
    and "fdiv (fsub (max_coord s) (min_coord s)) (step_size s) = Inr (Fin (real n))" and "0 < n"
    and "\<forall>i. i + 1 < n \<longrightarrow> \<not> sensor i"
  shows "homing sensor s =
    Some (Some max_steps_error, s\<lparr>stepper_log := stepper_log s @ replicate n (False, max_step s)\<rparr>)"
proof -
  have "\<forall>i<n - 1. \<not> homing_stop sensor (Fin (real n)) s i"
    using assms(2,5) by (auto simp: homing_stop_def)
  moreover have "homing_stop sensor (Fin (real n)) s (n - 1)"
    using assms(4) by (simp add: homing_stop_def of_nat_diff)
  ultimately show ?thesis
    using homing_lin_first_stop [OF assms(1,3), of "n - 1" sensor] assms(2,4)
    by (simp add: homing_exit_def homing_pulses_def of_nat_diff)
qed

text \<open>
  C2. The claim: if the sensor is never triggered within \<open>\<lfloor>(max_coord - min_coord) / step_size\<rfloor>\<close>
  pulses, linear homing fails exactly then and never loops beyond the budget. The source
  compares the pulse counter with the unrounded quotient for equality: on the axis with
  travel 5 and step size 2 the budget is 2, the quotient is 5/2, and with a sensor that is
  never triggered \<^verbatim>\<open>homing()\<close> never returns.
\<close>

theorem homing_fractional_budget_never_returns:
  "axis_init [1, 2, 3] [Fin 2, Fin 1, Fin 3, Fin 1] [Fin 0, Fin 5] ''LIN'' = Inr short_axis
   \<and> fdiv (fsub (max_coord short_axis) (min_coord short_axis)) (step_size short_axis)
       = Inr (Fin (5 / 2))
   \<and> py_int (Fin (5 / 2)) = Inr 2
   \<and> homing (\<lambda>k. False) short_axis = None"
proof -
  have m: "fdiv (fsub (max_coord short_axis) (min_coord short_axis)) (step_size short_axis)
      = Inr (Fin (5 / 2))"
    by (simp add: short_axis_def fdiv_def fsub_def)
  have "real_of_int (int (j + 1)) \<noteq> 5 / 2" for j :: nat
  proof
    assume "real_of_int (int (j + 1)) = 5 / 2"
    then have "real (2 * (j + 1)) = real 5" by simp
    then have "2 * (j + 1) = 5" by (simp only: of_nat_eq_iff)
    then show False by presburger
  qed
  then have "\<forall>j\<ge>0. \<not> homing_stop (\<lambda>k. False) (Fin (5 / 2)) short_axis j"
    by (simp add: homing_stop_def short_axis_def)
  then have "homing_loop (\<lambda>k. False) (Fin (5 / 2)) short_axis 0 = None"
    by (rule homing_loop_diverges)
  with m have "homing (\<lambda>k. False) short_axis = None"
    by (simp add: homing_def short_axis_def)
  with m show ?thesis
    using short_axis_init by simp
qed



subsection \<open>Moving\<close>

lemma move_loop_append:
  "move_loop d (xs @ ys) s = move_loop d ys (move_loop d xs s)"
  by (induction xs arbitrary: s) simp_all

lemma move_loop_fields:
  "step_size (move_loop d xs s) = step_size s"
  "min_coord (move_loop d xs s) = min_coord s"
  "max_coord (move_loop d xs s) = max_coord s"
  "homing_done (move_loop d xs s) = homing_done s"
  "busy (move_loop d xs s) = busy s"
  "stepper_log (move_loop d xs s) = stepper_log s @ map (Pair d) xs"
  by (induction xs arbitrary: s; simp add: move_pulse_def stepper_step_def Let_def)+

text \<open>
  A move that passes the three checks runs the plan when \<^verbatim>\<open>_calculate_steps\<close> returns,
  and raises with \<^verbatim>\<open>busy\<close> set when \<^verbatim>\<open>_calculate_steps\<close> raises.
\<close>

lemma move_to_coordinate_run:
  assumes "\<not> busy s" and "homing_done s"
    and "\<not> fgt t (max_coord s)" and "\<not> flt t (min_coord s)"
    and "calculate_steps s (fsub (current_coord s) t) = Inr n"
  shows "move_to_coordinate s t =
    (None, (move_loop (flt (fsub (current_coord s) t) (Fin 0)) (create_steps_list s n)
              (s\<lparr>busy := True\<rparr>))\<lparr>busy := False\<rparr>)"
  using assms
  by (simp add: move_to_coordinate_def check_availability_def check_homing_def
      check_valid_target_def calculate_delta_distance_def calculate_direction_def
      calculate_steps_def create_steps_list_def accel_leg_def decel_leg_def Let_def)

lemma move_to_coordinate_raise:
  assumes "\<not> busy s" and "homing_done s"
    and "\<not> fgt t (max_coord s)" and "\<not> flt t (min_coord s)"
    and "calculate_steps s (fsub (current_coord s) t) = Inl e"
  shows "move_to_coordinate s t = (Some e, s\<lparr>busy := True\<rparr>)"
  using assms
  by (simp add: move_to_coordinate_def check_availability_def check_homing_def
      check_valid_target_def calculate_delta_distance_def calculate_steps_def Let_def)

lemma move_to_coordinate_fields:
  "step_size (snd (move_to_coordinate s t)) = step_size s"
  "min_coord (snd (move_to_coordinate s t)) = min_coord s"
  "max_coord (snd (move_to_coordinate s t)) = max_coord s"
  "homing_done (snd (move_to_coordinate s t)) = homing_done s"
  by (simp_all add: move_to_coordinate_def check_availability_def check_homing_def
      check_valid_target_def move_loop_fields Let_def split: sum.splits)

lemma move_to_coordinate_busy:
  assumes "\<not> busy s"
  shows "busy (snd (move_to_coordinate s t)) \<longleftrightarrow>
    homing_done s \<and> \<not> fgt t (max_coord s) \<and> \<not> flt t (min_coord s)
    \<and> (\<exists>e. calculate_steps s (fsub (current_coord s) t) = Inl e)"
  using assms
  by (auto simp: move_to_coordinate_def check_availability_def check_homing_def
      check_valid_target_def calculate_delta_distance_def calculate_steps_def move_loop_fields
      Let_def split: sum.splits)

text \<open>
  C5. \<^verbatim>\<open>move_to_coordinate\<close> checks busy, then homed, then the bounds: a busy axis raises
  the busy exception; otherwise an axis that is not homed raises the homing exception;
  otherwise a target above \<open>max_coord\<close> or below \<open>min_coord\<close> raises the respective bounds
  exception. The four exceptions differ, and in each case the object is left as it was:
  no pulse, the same coordinate.
\<close>

theorem move_to_coordinate_rejections:
  "(busy s \<longrightarrow> move_to_coordinate s t = (Some busy_error, s))
   \<and> (\<not> busy s \<and> \<not> homing_done s \<longrightarrow> move_to_coordinate s t = (Some not_homed_error, s))
   \<and> (\<not> busy s \<and> homing_done s \<and> fgt t (max_coord s) \<longrightarrow>
         move_to_coordinate s t = (Some above_max_error, s))
   \<and> (\<not> busy s \<and> homing_done s \<and> \<not> fgt t (max_coord s) \<and> flt t (min_coord s) \<longrightarrow>
         move_to_coordinate s t = (Some below_min_error, s))
   \<and> distinct [busy_error, not_homed_error, above_max_error, below_min_error]"
proof -
  have "busy s \<longrightarrow> move_to_coordinate s t = (Some busy_error, s)"
    by (simp add: move_to_coordinate_def check_availability_def)
  moreover have "\<not> busy s \<and> \<not> homing_done s \<longrightarrow>
      move_to_coordinate s t = (Some not_homed_error, s)"
    by (simp add: move_to_coordinate_def check_availability_def check_homing_def)
  moreover have "\<not> busy s \<and> homing_done s \<and> fgt t (max_coord s) \<longrightarrow>
      move_to_coordinate s t = (Some above_max_error, s)"
    by (simp add: move_to_coordinate_def check_availability_def check_homing_def
        check_valid_target_def)
  moreover have "\<not> busy s \<and> homing_done s \<and> \<not> fgt t (max_coord s) \<and> flt t (min_coord s) \<longrightarrow>
      move_to_coordinate s t = (Some below_min_error, s)"
    by (simp add: move_to_coordinate_def check_availability_def check_homing_def
        check_valid_target_def)
  moreover have "distinct [busy_error, not_homed_error, above_max_error, below_min_error]"
    by (simp add: busy_error_def not_homed_error_def above_max_error_def below_min_error_def)
  ultimately show ?thesis by blast
qed

theorem move_to_coordinate_rejections_witness:
  "busy (homed_axis\<lparr>busy := True\<rparr>)
   \<and> move_to_coordinate (homed_axis\<lparr>busy := True\<rparr>) (Fin 5)
       = (Some busy_error, homed_axis\<lparr>busy := True\<rparr>)
   \<and> \<not> busy lin_axis \<and> \<not> homing_done lin_axis
   \<and> move_to_coordinate lin_axis (Fin 5) = (Some not_homed_error, lin_axis)
   \<and> \<not> busy homed_axis \<and> homing_done homed_axis \<and> fgt (Fin 21) (max_coord homed_axis)
   \<and> move_to_coordinate homed_axis (Fin 21) = (Some above_max_error, homed_axis)
   \<and> \<not> fgt (Fin (- 1)) (max_coord homed_axis) \<and> flt (Fin (- 1)) (min_coord homed_axis)
   \<and> move_to_coordinate homed_axis (Fin (- 1)) = (Some below_min_error, homed_axis)"
  using move_to_coordinate_rejections [of "homed_axis\<lparr>busy := True\<rparr>" "Fin 5"]
    move_to_coordinate_rejections [of lin_axis "Fin 5"]
    move_to_coordinate_rejections [of homed_axis "Fin 21"]
    move_to_coordinate_rejections [of homed_axis "Fin (- 1)"]
  by (simp add: lin_axis_fields homed_axis_fields fgt_def)

lemma offset_homed_steps:
  "calculate_steps offset_homed (fsub (current_coord offset_homed) (Fin dbl_3_3)) = Inr 1"
  by (simp add: calculate_steps_def offset_homed_def offset_axis_def offset_arith fdiv_def
      dbl_signs del: ieee_div.simps(1) fadd.simps(1))

lemma offset_homed_move:
  "move_to_coordinate offset_homed (Fin dbl_3_3) =
     (None, offset_homed\<lparr>current_coord := Fin dbl_2_3,
              stepper_log := [(False, Fin 3), (True, Fin 3)]\<rparr>)"
proof -
  have "move_to_coordinate offset_homed (Fin dbl_3_3) =
    (None, (move_loop (flt (fsub (current_coord offset_homed) (Fin dbl_3_3)) (Fin 0))
              (create_steps_list offset_homed 1) (offset_homed\<lparr>busy := True\<rparr>))\<lparr>busy := False\<rparr>)"
    by (rule move_to_coordinate_run [OF _ _ _ _ offset_homed_steps])
       (simp_all add: offset_homed_def offset_axis_def fgt_def dbl_signs)
  moreover have "create_steps_list offset_homed 1 = [Fin 3]"
    by (simp add: create_steps_list_def offset_homed_def offset_axis_def)
  moreover have "flt (fsub (current_coord offset_homed) (Fin dbl_3_3)) (Fin 0)"
    by (simp add: offset_homed_def offset_axis_def offset_arith dbl_signs)
  ultimately show ?thesis
    by (simp add: move_pulse_def stepper_step_def Let_def)
       (simp add: offset_homed_def offset_axis_def offset_arith del: fadd.simps(1))
qed

lemma wide_homed_steps:
  "calculate_steps wide_homed (fsub (current_coord wide_homed) (Fin dbl_3_9)) = Inr 3"
  by (simp add: calculate_steps_def wide_homed_def wide_axis_def wide_arith fdiv_def dbl_signs
      del: ieee_div.simps(1) fadd.simps(1))

lemma wide_homed_move:
  "move_to_coordinate wide_homed (Fin dbl_3_9) =
     (None, wide_homed\<lparr>current_coord := Fin dbl_3_9_next,
              stepper_log := [(False, Fin 3), (True, Fin 3), (True, Fin 3), (True, Fin 3)]\<rparr>)"
proof -
  have "move_to_coordinate wide_homed (Fin dbl_3_9) =
    (None, (move_loop (flt (fsub (current_coord wide_homed) (Fin dbl_3_9)) (Fin 0))
              (create_steps_list wide_homed 3) (wide_homed\<lparr>busy := True\<rparr>))\<lparr>busy := False\<rparr>)"
    by (rule move_to_coordinate_run [OF _ _ _ _ wide_homed_steps])
       (simp_all add: wide_homed_def wide_axis_def fgt_def dbl_signs)
  moreover have "create_steps_list wide_homed 3 = [Fin 3, Fin 3, Fin 3]"
    by (simp add: create_steps_list_def wide_homed_def wide_axis_def numeral_eq_Suc)
  moreover have "flt (fsub (current_coord wide_homed) (Fin dbl_3_9)) (Fin 0)"
    by (simp add: wide_homed_def wide_axis_def wide_arith dbl_signs)
  ultimately show ?thesis
    by (simp add: move_pulse_def stepper_step_def Let_def)
       (simp add: wide_homed_def wide_axis_def wide_arith del: fadd.simps(1))
qed

lemma homed_axis_nan_steps:
  "calculate_steps homed_axis (fsub (current_coord homed_axis) NaN) = Inl ValueError"
  by (simp add: calculate_steps_def homed_axis_fields fsub_def fdiv_def)

text \<open>
  C4. The claim: a successful move ends with \<open>\<bar>current_coord - target\<bar> < step_size\<close>. On the
  axis with step size \<^verbatim>\<open>1.0\<close> homed at \<^verbatim>\<open>1.3\<close>, \<^verbatim>\<open>move_to_coordinate(3.3)\<close> computes the
  distance \<^verbatim>\<open>1.9999999999999998\<close>, makes one step and stops at \<^verbatim>\<open>2.3\<close>: the distance left
  is \<^verbatim>\<open>1.0\<close>, the step size, and one more step would have reached the target exactly.
\<close>

theorem move_to_coordinate_stops_a_step_short:
  "axis_init [1, 2, 3] [Fin 1, Fin 1, Fin 3, Fin 1] [Fin dbl_1_3, Fin dbl_3_3] ''LIN''
     = Inr offset_axis
   \<and> round_double (13 / 10) = Fin dbl_1_3 \<and> round_double (33 / 10) = Fin dbl_3_3
   \<and> round_double (23 / 10) = Fin dbl_2_3
   \<and> homing (\<lambda>k. True) offset_axis = Some (None, offset_homed)
   \<and> current_coord offset_homed = Fin dbl_1_3 \<and> step_size offset_homed = Fin 1
   \<and> move_to_coordinate offset_homed (Fin dbl_3_3) =
       (None, offset_homed\<lparr>current_coord := Fin dbl_2_3,
                stepper_log := [(False, Fin 3), (True, Fin 3)]\<rparr>)
   \<and> fabs (fsub (Fin dbl_2_3) (Fin dbl_3_3)) = Fin 1
   \<and> \<bar>dbl_2_3 - dbl_3_3\<bar> = 1
   \<and> fadd (Fin dbl_2_3) (Fin 1) = Fin dbl_3_3"
  using offset_axis_init decimal_doubles offset_axis_homing offset_homed_move
  by (simp add: dbl_signs offset_arith del: fadd.simps(1))
     (simp add: offset_homed_def offset_axis_def)

subsection \<open>The busy flag\<close>

text \<open>
  C3. The claim: \<^verbatim>\<open>busy\<close> is true for the whole of a homing or move call, so that no two
  operations overlap; in particular \<^verbatim>\<open>homing()\<close> sets it. The source of \<^verbatim>\<open>homing()\<close>
  neither tests nor sets the flag. Here a homed axis is homed again with a sensor that is
  triggered at the second sample: after the first pulse the loop goes on from an object whose
  flag is false, and on that object \<^verbatim>\<open>move_to_coordinate(2.0)\<close> is accepted. And
  \<^verbatim>\<open>homing()\<close> on a busy object runs and returns normally.
\<close>

theorem homing_never_sets_busy:
  "homing (\<lambda>k. True) lin_axis = Some (None, homed_axis) \<and> \<not> busy lin_axis \<and> \<not> busy homed_axis
   \<and> homing_loop (\<lambda>k. 0 < k) (Fin 20) homed_axis 0
       = homing_loop (\<lambda>k. 0 < k) (Fin 20) (stepper_step False (Fin 3) homed_axis) 1
   \<and> \<not> busy (stepper_step False (Fin 3) homed_axis)
   \<and> fst (move_to_coordinate (stepper_step False (Fin 3) homed_axis) (Fin 2)) = None
   \<and> (\<exists>s'. homing (\<lambda>k. True) (homed_axis\<lparr>busy := True\<rparr>) = Some (None, s') \<and> busy s')"
proof -
  have "homing_loop (\<lambda>k. 0 < k) (Fin 20) homed_axis 0
      = homing_loop (\<lambda>k. 0 < k) (Fin 20) (stepper_step False (Fin 3) homed_axis) 1"
    by (subst homing_loop.simps) (simp add: Let_def homed_axis_fields)
  moreover have "calculate_steps (stepper_step False (Fin 3) homed_axis)
      (fsub (current_coord (stepper_step False (Fin 3) homed_axis)) (Fin 2)) = Inr 2"
    by (simp add: calculate_steps_def homed_axis_fields fsub_def fdiv_def)
  then have "fst (move_to_coordinate (stepper_step False (Fin 3) homed_axis) (Fin 2)) = None"
    using move_to_coordinate_run [of "stepper_step False (Fin 3) homed_axis" "Fin 2" 2]
    by (simp add: homed_axis_fields fgt_def)
  moreover have "\<exists>s'. homing (\<lambda>k. True) (homed_axis\<lparr>busy := True\<rparr>) = Some (None, s') \<and> busy s'"
    using homing_lin_first_stop [of "homed_axis\<lparr>busy := True\<rparr>" "Fin 20" 0 "\<lambda>k. True"]
      lin_axis_travel(2)
    by (simp add: homed_axis_fields homing_stop_def homing_exit_def)
  ultimately show ?thesis
    by (simp add: homing_lin_axis lin_axis_fields homed_axis_fields)
qed

text \<open>
  C7. The claim: every failure path clears \<^verbatim>\<open>busy\<close> before raising. On a homed axis,
  \<^verbatim>\<open>move_to_coordinate(float('nan'))\<close> passes both bounds comparisons, \<^verbatim>\<open>int\<close> raises
  \<^verbatim>\<open>ValueError\<close> in \<^verbatim>\<open>_calculate_steps\<close>, and the object is left busy: the next move is
  refused with the busy exception.
\<close>

theorem move_to_coordinate_nan_leaves_busy:
  "axis_init [1, 2, 3] [Fin 1, Fin 1, Fin 3, Fin 1] [Fin 0, Fin 20] ''LIN'' = Inr lin_axis
   \<and> homing (\<lambda>k. True) lin_axis = Some (None, homed_axis) \<and> \<not> busy homed_axis
   \<and> move_to_coordinate homed_axis NaN = (Some ValueError, homed_axis\<lparr>busy := True\<rparr>)
   \<and> busy (homed_axis\<lparr>busy := True\<rparr>)
   \<and> move_to_coordinate (homed_axis\<lparr>busy := True\<rparr>) (Fin 5)
       = (Some busy_error, homed_axis\<lparr>busy := True\<rparr>)"
proof -
  have "move_to_coordinate homed_axis NaN = (Some ValueError, homed_axis\<lparr>busy := True\<rparr>)"
    by (rule move_to_coordinate_raise [OF _ _ _ _ homed_axis_nan_steps])
       (simp_all add: homed_axis_fields fgt_def)
  moreover have "move_to_coordinate (homed_axis\<lparr>busy := True\<rparr>) (Fin 5)
       = (Some busy_error, homed_axis\<lparr>busy := True\<rparr>)"
    by (simp add: move_to_coordinate_def check_availability_def)
  ultimately show ?thesis
    using lin_axis_init homing_lin_axis by (simp add: homed_axis_fields)
qed

subsection \<open>The current coordinate\<close>

text \<open>
  C9. A constructed object is not homed and has the current coordinate \<open>-1\<close>, whatever the
  coordinate range. On an object that is not homed and has the coordinate \<open>-1\<close>,
  \<^verbatim>\<open>move_to_coordinate\<close> changes neither, and \<^verbatim>\<open>homing\<close> either returns normally with
  \<open>homing_done\<close> set or raises and changes neither.
\<close>

theorem current_coord_before_homing:
  "(axis_init pin_values step_values coord_values ty = Inr s0 \<longrightarrow>
      \<not> homing_done s0 \<and> current_coord s0 = Fin (- 1))
   \<and> (\<not> homing_done s \<and> current_coord s = Fin (- 1) \<longrightarrow>
        \<not> homing_done (snd (move_to_coordinate s t))
        \<and> current_coord (snd (move_to_coordinate s t)) = Fin (- 1)
        \<and> (\<forall>r s'. homing sensor s = Some (r, s') \<longrightarrow>
              (if r = None then homing_done s'
               else \<not> homing_done s' \<and> current_coord s' = Fin (- 1))))"
proof -
  have "current_coord (snd (move_to_coordinate s t)) = current_coord s" if "\<not> homing_done s"
    using that
    by (simp add: move_to_coordinate_def check_availability_def check_homing_def)
  then show ?thesis
    using axis_init_fresh(2,3) [of pin_values step_values coord_values ty s0]
      move_to_coordinate_fields(4) [of s t] homing_result_fields(5,6) [of sensor s]
    by auto
qed

theorem current_coord_before_homing_witness:
  "(\<exists>s. axis_init [1, 2, 3] [Fin 1, Fin 1, Fin 3, Fin 1] [Fin (- 5), Fin 5] ''LIN'' = Inr s
        \<and> \<not> homing_done s \<and> current_coord s = Fin (- 1)
        \<and> fle (min_coord s) (current_coord s) \<and> fle (current_coord s) (max_coord s))
   \<and> \<not> homing_done lin_axis \<and> current_coord lin_axis = Fin (- 1)
   \<and> current_coord (snd (move_to_coordinate lin_axis (Fin 5))) = Fin (- 1)
   \<and> homing (\<lambda>k. True) lin_axis = Some (None, homed_axis) \<and> homing_done homed_axis"
proof -
  have init: "axis_init [1, 2, 3] [Fin 1, Fin 1, Fin 3, Fin 1] [Fin (- 5), Fin 5] ''LIN''
      = Inr (lin_axis\<lparr>min_coord := Fin (- 5), max_coord := Fin 5\<rparr>)"
    by (simp add: axis_init_def lin_axis_def fdiv_def fsub_def)
  show ?thesis
    using current_coord_before_homing
      [of "[1, 2, 3]" "[Fin 1, Fin 1, Fin 3, Fin 1]" "[Fin (- 5), Fin 5]" "''LIN''"
        "lin_axis\<lparr>min_coord := Fin (- 5), max_coord := Fin 5\<rparr>" lin_axis "Fin 5" "\<lambda>k. True"]
    by (simp add: init lin_axis_fields homing_lin_axis homed_axis_fields)
qed

text \<open>
  C10. The claim: once homed, the current coordinate stays within
  \<open>[min_coord, max_coord]\<close>. On the axis with step size \<^verbatim>\<open>1.3\<close> and range
  \<^verbatim>\<open>[0.0, 3.9]\<close>, homed at \<^verbatim>\<open>0.0\<close>, \<^verbatim>\<open>move_to_coordinate(3.9)\<close> makes three steps and the
  three additions end at \<^verbatim>\<open>3.9000000000000004\<close>, above \<open>max_coord\<close>.
\<close>

theorem move_to_coordinate_passes_max_coord:
  "axis_init [1, 2, 3] [Fin dbl_1_3, Fin 1, Fin 3, Fin 1] [Fin 0, Fin dbl_3_9] ''LIN''
     = Inr wide_axis
   \<and> round_double (13 / 10) = Fin dbl_1_3 \<and> round_double (39 / 10) = Fin dbl_3_9
   \<and> homing (\<lambda>k. True) wide_axis = Some (None, wide_homed)
   \<and> homing_done wide_homed \<and> max_coord wide_homed = Fin dbl_3_9
   \<and> fle (min_coord wide_homed) (current_coord wide_homed)
   \<and> fle (current_coord wide_homed) (max_coord wide_homed)
   \<and> \<not> fgt (Fin dbl_3_9) (max_coord wide_homed) \<and> \<not> flt (Fin dbl_3_9) (min_coord wide_homed)
   \<and> move_to_coordinate wide_homed (Fin dbl_3_9) =
       (None, wide_homed\<lparr>current_coord := Fin dbl_3_9_next,
                stepper_log := [(False, Fin 3), (True, Fin 3), (True, Fin 3), (True, Fin 3)]\<rparr>)
   \<and> fgt (Fin dbl_3_9_next) (Fin dbl_3_9)"
  using wide_axis_init decimal_doubles wide_axis_homing wide_homed_move
  by (simp add: dbl_signs fgt_def) (simp add: wide_homed_def wide_axis_def dbl_signs)

end
